theory Spec2Isabelle
  imports Main "HOL-Library.AList"
begin

section \<open>django_celery_beat/querysets.py: UTC hour and minute of crontab schedules\<close>

text \<open>
  The module has two functions. \<^verbatim>\<open>get_timezone_offsets\<close> builds a dict from
  timezone names to their current UTC offset in seconds.
  \<^verbatim>\<open>annotate_with_utc_hour_minute\<close> annotates each row of a queryset with
  \<^verbatim>\<open>offset\<close>, \<^verbatim>\<open>utc_hour\<close> and \<^verbatim>\<open>utc_minute\<close>, written as
  Django query expressions (Case, When, Cast, Floor, Mod) that the database evaluates
  per row when the queryset is read.

  The source does not fix what these expressions compute: the database does. Two
  databases are modelled, and every definition that depends on the database takes it as
  its first argument:
  \<^item> PostgreSQL: the offsets reach the query as decimal literals, so the arithmetic is
    exact (type numeric); the cast to integer is to a 32-bit integer and raises outside
    its range; the regular expression matches the whole string;
  \<^item> SQLite (3.35 or later, whose built-in FLOOR and MOD Django uses): the offsets are
    REAL, MOD always returns REAL, so every computed hour and minute is a floating-point
    number when it is cast to text; the cast to integer is to a 64-bit integer and
    saturates; the regular expression is matched by Python's \<^verbatim>\<open>re.search\<close>, whose
    \<^verbatim>\<open>$\<close> also matches before a newline that ends the string.

  What stays outside the model:
  \<^item> the other databases Django supports (MySQL, Oracle) and older SQLite builds, where
    Django registers Python functions for FLOOR and MOD;
  \<^item> a string is a list of characters with codes 0 to 255; among them only 0 to 9 are
    digits for either database, and fields with characters beyond are not represented;
  \<^item> an offset is a whole number of seconds, below one day in absolute value (Python
    refuses any other \<^verbatim>\<open>utcoffset\<close>); on such offsets the quotients and
    remainders by 3600 and 60 are exact on both databases;
  \<^item> the parameters \<^verbatim>\<open>timezone_field\<close>, \<^verbatim>\<open>hour_field\<close> and
    \<^verbatim>\<open>minute_field\<close> only name the columns read; a row carries the three
    values they select.
\<close>

subsection \<open>Databases and errors\<close>

datatype backend = PostgreSQL | SQLite

datatype error =
    ZoneInfoError              \<comment> \<open>any exception raised while resolving one timezone\<close>
  | InvalidTextRepresentation  \<comment> \<open>PostgreSQL: invalid input syntax for type integer\<close>
  | NumericValueOutOfRange     \<comment> \<open>PostgreSQL: value out of range for type integer\<close>

definition bind_result :: "error + 'a \<Rightarrow> ('a \<Rightarrow> error + 'b) \<Rightarrow> error + 'b" where
  "bind_result m f = (case m of Inl e \<Rightarrow> Inl e | Inr v \<Rightarrow> f v)"

subsection \<open>Characters and digit strings\<close>

definition is_digit :: "char \<Rightarrow> bool" where
  "is_digit c = (c \<in> set ''0123456789'')"

text \<open>Tab, line feed, vertical tab, form feed, carriage return and space.\<close>

definition is_space :: "char \<Rightarrow> bool" where
  "is_space c = (c \<in> set [CHR 0x09, CHR 0x0A, CHR 0x0B, CHR 0x0C, CHR 0x0D, CHR 0x20])"

text \<open>One or more decimal digits and nothing else: a Fixed field in the words of the spec.\<close>

definition digits_only :: "string \<Rightarrow> bool" where
  "digits_only s = (s \<noteq> [] \<and> list_all is_digit s)"

text \<open>
  The lookup \<^verbatim>\<open>field__regex=r"^\d+$"\<close>. PostgreSQL's \<^verbatim>\<open>~\<close> anchors
  \<^verbatim>\<open>$\<close> at the end of the string; Python's \<^verbatim>\<open>re.search\<close>, which Django
  registers as SQLite's REGEXP, also accepts one line feed after the digits.
\<close>

fun regex_lookup :: "backend \<Rightarrow> string \<Rightarrow> bool" where
  "regex_lookup PostgreSQL s = digits_only s"
| "regex_lookup SQLite s =
     (digits_only s \<or> (s \<noteq> [] \<and> last s = CHR 0x0A \<and> digits_only (butlast s)))"

definition digit_val :: "char \<Rightarrow> int" where
  "digit_val c = int (of_char c) - 48"

definition int_of_digits :: "string \<Rightarrow> int" where
  "int_of_digits s = foldl (\<lambda>acc c. 10 * acc + digit_val c) 0 s"

fun split_sign :: "string \<Rightarrow> bool \<times> string" where
  "split_sign [] = (False, [])"
| "split_sign (c # cs) =
     (if c = CHR ''-'' then (True, cs) else if c = CHR ''+'' then (False, cs)
      else (False, c # cs))"

subsection \<open>Cast to an integer\<close>

text \<open>
  \<^verbatim>\<open>Cast(F(field), output_field=IntegerField())\<close>, that is
  \<^verbatim>\<open>CAST(field AS integer)\<close>.

  PostgreSQL reads an optional sign and digits, with white space allowed around them,
  and raises on anything else and on a value outside the 32-bit range.

  SQLite skips leading white space, reads an optional sign and the longest run of digits
  (none gives 0), ignores the rest, and saturates at the ends of the 64-bit range. It
  never raises.
\<close>

fun Cast_IntegerField :: "backend \<Rightarrow> string \<Rightarrow> error + int" where
  "Cast_IntegerField PostgreSQL s =
     (let (neg, ds) = split_sign (rev (dropWhile is_space (rev (dropWhile is_space s))));
          v = (if neg then - int_of_digits ds else int_of_digits ds)
      in if \<not> digits_only ds then Inl InvalidTextRepresentation
         else if v < - (2 ^ 31) \<or> 2 ^ 31 - 1 < v then Inl NumericValueOutOfRange
         else Inr v)"
| "Cast_IntegerField SQLite s =
     (let (neg, rest) = split_sign (dropWhile is_space s);
          ds = takeWhile is_digit rest;
          v = (if neg then - int_of_digits ds else int_of_digits ds)
      in Inr (max (- (2 ^ 63)) (min v (2 ^ 63 - 1))))"

declare Cast_IntegerField.simps [simp del]

subsection \<open>Numbers of the two databases\<close>

text \<open>
  Every number that occurs has an integer value. On PostgreSQL it is a numeric and the
  arithmetic is exact. On SQLite it is a REAL, a 64-bit floating-point number with 53
  bits of precision: \<open>to_double\<close> is the integer-valued REAL nearest to an integer (ties
  to the even one), the identity below \<open>2 ^ 53\<close>.
\<close>

function bit_length :: "int \<Rightarrow> nat" where
  "bit_length n = (if n \<le> 0 then 0 else Suc (bit_length (n div 2)))"
  by pat_completeness auto
termination
  by (relation "measure nat") auto

declare bit_length.simps [simp del]

definition to_double :: "int \<Rightarrow> int" where
  "to_double n =
     (if \<bar>n\<bar> < 2 ^ 53 then n
      else let e = bit_length \<bar>n\<bar> - 53;
               q = \<bar>n\<bar> div 2 ^ e;
               r = \<bar>n\<bar> mod 2 ^ e;
               q' = (if 2 ^ (e - 1) < r \<or> (r = 2 ^ (e - 1) \<and> odd q) then q + 1 else q)
           in sgn n * (q' * 2 ^ e))"

text \<open>
  The difference \<^verbatim>\<open>Cast(F(field), int) - Floor(...)\<close>: an integer minus a REAL is
  computed in floating point on SQLite.
\<close>

fun Subtract :: "backend \<Rightarrow> int \<Rightarrow> int \<Rightarrow> int" where
  "Subtract PostgreSQL a b = a - b"
| "Subtract SQLite a b = to_double (to_double a - b)"

text \<open>
  \<^verbatim>\<open>Mod(a, b)\<close>, the MOD function of both databases: the remainder has the sign of
  the dividend, MOD(-1, 24) is -1. It is exact on both.
\<close>

definition trunc_mod :: "int \<Rightarrow> int \<Rightarrow> int" where
  "trunc_mod a b = sgn a * (\<bar>a\<bar> mod \<bar>b\<bar>)"

subsection \<open>Cast to text\<close>

text \<open>The decimal digits of an integer that is not negative.\<close>

function digits_of :: "int \<Rightarrow> string" where
  "digits_of n =
     (if n < 10 then [''0123456789'' ! nat n]
      else digits_of (n div 10) @ [''0123456789'' ! nat (n mod 10)])"
  by pat_completeness auto
termination
  by (relation "measure nat") auto

declare digits_of.simps [simp del]

text \<open>Decimal notation of an integer: what PostgreSQL writes for a numeric without fraction.\<close>

definition decimal :: "int \<Rightarrow> string" where
  "decimal i = (if i < 0 then CHR ''-'' # digits_of (- i) else digits_of i)"

text \<open>
  What SQLite writes for a REAL of integer value (its format \<^verbatim>\<open>%!.15g\<close>): below
  \<open>10 ^ 15\<close> the digits followed by \<^verbatim>\<open>.0\<close>; from there on fifteen significant
  digits, rounded half up, with the trailing zeros dropped, and an exponent.
\<close>

definition strip_zeros :: "string \<Rightarrow> string" where
  "strip_zeros s = rev (dropWhile (\<lambda>c. c = CHR ''0'') (rev s))"

definition real_text :: "int \<Rightarrow> string" where
  "real_text v =
     (let a = \<bar>v\<bar>;
          sign = (if v < 0 then ''-'' else '''')
      in if a < 10 ^ 15 then sign @ digits_of a @ ''.0''
         else let n = length (digits_of a);
                  m = (a + 5 * 10 ^ (n - 16)) div 10 ^ (n - 15);
                  (m', n') = (if m = 10 ^ 15 then (10 ^ 14, n + 1) else (m, n));
                  md = digits_of m';
                  frac = strip_zeros (tl md)
              in sign @ [hd md] @ ''.'' @ (if frac = [] then ''0'' else frac) @
                 ''e+'' @ digits_of (int (n' - 1)))"

text \<open>\<^verbatim>\<open>Cast(expr, output_field=CharField())\<close> of a computed number.\<close>

fun Cast_CharField :: "backend \<Rightarrow> int \<Rightarrow> string" where
  "Cast_CharField PostgreSQL v = decimal v"
| "Cast_CharField SQLite v = real_text v"

text \<open>Decimal notation without a leading zero.\<close>

definition canonical :: "string \<Rightarrow> bool" where
  "canonical s = (s = ''0'' \<or> hd s \<noteq> CHR ''0'')"

subsection \<open>get_timezone_offsets\<close>

text \<open>
  The dict \<^verbatim>\<open>timezone_offsets\<close> is an association list; storing a key again
  replaces its value. \<^verbatim>\<open>available_timezones()\<close> and the resolution of one name
  (\<^verbatim>\<open>ZoneInfo(tz_name)\<close>, \<^verbatim>\<open>datetime.now(tz).utcoffset().total_seconds()\<close>)
  read the host's timezone database: they are the parameters \<open>available_timezones\<close>
  (in iteration order) and \<open>resolve\<close>, which returns the offset or the exception raised.
\<close>

type_synonym catalog = "(string \<times> int) list"

fun get_timezone_offsets_loop ::
  "(string \<Rightarrow> error + int) \<Rightarrow> string list \<Rightarrow> catalog \<Rightarrow> catalog" where
  "get_timezone_offsets_loop resolve [] timezone_offsets = timezone_offsets"
| "get_timezone_offsets_loop resolve (tz_name # rest) timezone_offsets =
     (case resolve tz_name of
        Inl e \<Rightarrow> get_timezone_offsets_loop resolve rest timezone_offsets
      | Inr offset_sec \<Rightarrow>
          get_timezone_offsets_loop resolve rest (AList.update tz_name offset_sec timezone_offsets))"

definition get_timezone_offsets :: "string list \<Rightarrow> (string \<Rightarrow> error + int) \<Rightarrow> catalog" where
  "get_timezone_offsets available_timezones resolve =
     get_timezone_offsets_loop resolve available_timezones []"

subsection \<open>annotate_with_utc_hour_minute\<close>

text \<open>
  A row of the queryset: the three columns read, and the three annotations, absent
  (\<open>None\<close>) until \<^verbatim>\<open>annotate\<close> adds them.
\<close>

record row =
  timezone :: string
  hour :: string
  minute :: string
  offset :: "int option"
  utc_hour :: "string option"
  utc_minute :: "string option"

text \<open>
  \<^verbatim>\<open>Case(*[When(timezone_field=tz, then=Value(timezone_offsets.get(tz, 0)))
  for tz in timezone_offsets.keys()], default=Value(0))\<close>: the first key equal to the
  row's timezone decides.
\<close>

fun offset_annotation :: "string list \<Rightarrow> catalog \<Rightarrow> string \<Rightarrow> int" where
  "offset_annotation [] timezone_offsets tz_value = 0"
| "offset_annotation (tz # tzs) timezone_offsets tz_value =
     (if tz_value = tz
      then (case map_of timezone_offsets tz of Some v \<Rightarrow> v | None \<Rightarrow> 0)
      else offset_annotation tzs timezone_offsets tz_value)"

text \<open>
  \<^verbatim>\<open>Case(When(hour__regex=r"^\d+$", then=Cast(Mod(Cast(F(hour), int) -
  Floor(F("offset") / Value(3600)), Value(24)), char)), default=F(hour))\<close>.
  \<^verbatim>\<open>Floor(F("offset") / Value(3600))\<close> is \<open>off div 3600\<close>, the floor of the
  quotient.
\<close>

definition utc_hour_annotation :: "backend \<Rightarrow> int \<Rightarrow> string \<Rightarrow> error + string" where
  "utc_hour_annotation b off hour_value =
     (if regex_lookup b hour_value then
        bind_result (Cast_IntegerField b hour_value) (\<lambda>h.
        Inr (Cast_CharField b (trunc_mod (Subtract b h (off div 3600)) 24)))
      else Inr hour_value)"

text \<open>
  \<^verbatim>\<open>Case(When(minute__regex=r"^\d+$", then=Cast(Cast(F(minute), int) -
  Floor(Mod(F("offset"), Value(3600)) / Value(60)), char)), default=F(minute))\<close>.
  There is no Mod around the difference.
\<close>

definition utc_minute_annotation :: "backend \<Rightarrow> int \<Rightarrow> string \<Rightarrow> error + string" where
  "utc_minute_annotation b off minute_value =
     (if regex_lookup b minute_value then
        bind_result (Cast_IntegerField b minute_value) (\<lambda>m.
        Inr (Cast_CharField b (Subtract b m (trunc_mod off 3600 div 60))))
      else Inr minute_value)"

text \<open>
  \<^verbatim>\<open>queryset.annotate(**offset_annotation).annotate(**utc_hour_annotation,
  **utc_minute_annotation)\<close> on one row, then on every row in order; an error in one row
  is an error of the query, raised to whoever reads the queryset.
\<close>

definition annotate_row :: "backend \<Rightarrow> catalog \<Rightarrow> row \<Rightarrow> error + row" where
  "annotate_row b timezone_offsets r =
     (let off = offset_annotation (map fst timezone_offsets) timezone_offsets (timezone r) in
      bind_result (utc_hour_annotation b off (hour r)) (\<lambda>uh.
      bind_result (utc_minute_annotation b off (minute r)) (\<lambda>um.
      Inr (r\<lparr>offset := Some off, utc_hour := Some uh, utc_minute := Some um\<rparr>))))"

fun annotate_rows :: "backend \<Rightarrow> catalog \<Rightarrow> row list \<Rightarrow> error + row list" where
  "annotate_rows b timezone_offsets [] = Inr []"
| "annotate_rows b timezone_offsets (r # rs) =
     bind_result (annotate_row b timezone_offsets r) (\<lambda>r'.
     bind_result (annotate_rows b timezone_offsets rs) (\<lambda>rs'.
     Inr (r' # rs')))"

text \<open>The body of the function, from line 42 on, for a given dict.\<close>

definition annotate_with_catalog :: "backend \<Rightarrow> catalog \<Rightarrow> row list \<Rightarrow> error + row list" where
  "annotate_with_catalog b timezone_offsets queryset =
     (if timezone_offsets = [] then Inr queryset
      else annotate_rows b timezone_offsets queryset)"

definition annotate_with_utc_hour_minute ::
  "backend \<Rightarrow> string list \<Rightarrow> (string \<Rightarrow> error + int) \<Rightarrow> row list \<Rightarrow> error + row list" where
  "annotate_with_utc_hour_minute b available_timezones resolve queryset =
     annotate_with_catalog b (get_timezone_offsets available_timezones resolve) queryset"

section \<open>Properties\<close>

subsection \<open>Digits and decimal notation\<close>

lemma digit_val_range: "is_digit c \<Longrightarrow> 0 \<le> digit_val c \<and> digit_val c < 10"
  by (auto simp: is_digit_def digit_val_def)

lemma digit_char_of_val: "is_digit c \<Longrightarrow> ''0123456789'' ! nat (digit_val c) = c"
  by (auto simp: is_digit_def digit_val_def)

lemma digit_char_is_digit: "n < 10 \<Longrightarrow> is_digit (''0123456789'' ! n)"
  unfolding is_digit_def by (rule nth_mem) simp

lemma digit_val_of_char: "n < 10 \<Longrightarrow> digit_val (''0123456789'' ! n) = int n"
proof -
  assume "n < 10"
  then have "n \<in> {0,1,2,3,4,5,6,7,8,9}" by auto
  then show ?thesis by (auto simp: digit_val_def)
qed

lemma digit_val_zero: "is_digit c \<Longrightarrow> digit_val c = 0 \<Longrightarrow> c = CHR ''0''"
  by (auto simp: is_digit_def digit_val_def)

lemma digit_not_space: "is_digit c \<Longrightarrow> \<not> is_space c"
  by (auto simp: is_digit_def is_space_def)

lemma digit_not_sign: "is_digit c \<Longrightarrow> c \<noteq> CHR ''-'' \<and> c \<noteq> CHR ''+''"
  by (auto simp: is_digit_def)

lemma int_of_digits_snoc: "int_of_digits (s @ [c]) = 10 * int_of_digits s + digit_val c"
  by (simp add: int_of_digits_def)

lemma int_of_digits_nonneg: "list_all is_digit s \<Longrightarrow> 0 \<le> int_of_digits s"
proof (induction s rule: rev_induct)
  case Nil
  then show ?case by (simp add: int_of_digits_def)
next
  case (snoc c s)
  then show ?case using digit_val_range [of c] by (simp add: int_of_digits_snoc)
qed

lemma digits_of_all_digits: "list_all is_digit (digits_of n)"
proof (induction n rule: digits_of.induct)
  case (1 n)
  show ?case
  proof (cases "n < 10")
    case True
    then have "nat n < 10" by simp
    with True show ?thesis by (simp add: digits_of.simps [of n] digit_char_is_digit)
  next
    case False
    have "nat (n mod 10) < 10" by simp
    with False 1 show ?thesis by (simp add: digits_of.simps [of n] digit_char_is_digit)
  qed
qed

lemma digits_of_nonempty: "digits_of n \<noteq> []"
  by (subst digits_of.simps) simp

lemma digits_only_digits_of: "digits_only (digits_of n)"
  by (simp add: digits_only_def digits_of_all_digits digits_of_nonempty)

lemma int_of_digits_of: "0 \<le> n \<Longrightarrow> int_of_digits (digits_of n) = n"
proof (induction n rule: digits_of.induct)
  case (1 n)
  show ?case
  proof (cases "n < 10")
    case True
    with "1.prems" have small: "nat n < 10" and nn: "int (nat n) = n" by simp_all
    have "digits_of n = [''0123456789'' ! nat n]"
      using True by (simp add: digits_of.simps [of n])
    then have "int_of_digits (digits_of n) = digit_val (''0123456789'' ! nat n)"
      by (simp add: int_of_digits_def)
    also have "\<dots> = int (nat n)" by (rule digit_val_of_char [OF small])
    finally show ?thesis using nn by simp
  next
    case False
    with 1 have "int_of_digits (digits_of (n div 10)) = n div 10" by simp
    moreover have "nat (n mod 10) < 10" "int (nat (n mod 10)) = n mod 10" by simp_all
    moreover have "10 * (n div 10) + n mod 10 = n" by simp
    ultimately show ?thesis using False
      by (simp add: digits_of.simps [of n] int_of_digits_snoc digit_val_of_char)
  qed
qed

lemma int_of_digits_pos:
  "s \<noteq> [] \<Longrightarrow> list_all is_digit s \<Longrightarrow> hd s \<noteq> CHR ''0'' \<Longrightarrow> 0 < int_of_digits s"
proof (induction s rule: rev_induct)
  case Nil
  then show ?case by simp
next
  case (snoc c s)
  show ?case
  proof (cases "s = []")
    case True
    with snoc.prems have "is_digit c" "c \<noteq> CHR ''0''" by simp_all
    with digit_val_zero [of c] digit_val_range [of c] have "0 < digit_val c"
      by (cases "digit_val c = 0") auto
    with True show ?thesis by (simp add: int_of_digits_def)
  next
    case False
    with snoc have "0 < int_of_digits s" by simp
    with snoc.prems digit_val_range [of c] show ?thesis
      by (simp add: int_of_digits_snoc)
  qed
qed

lemma digits_of_int_of_digits:
  "s \<noteq> [] \<Longrightarrow> list_all is_digit s \<Longrightarrow> s = ''0'' \<or> hd s \<noteq> CHR ''0'' \<Longrightarrow>
   digits_of (int_of_digits s) = s"
proof (induction s rule: rev_induct)
  case Nil
  then show ?case by simp
next
  case (snoc c s)
  from snoc.prems have c: "is_digit c" by simp
  note r = digit_val_range [OF c]
  show ?case
  proof (cases "s = []")
    case True
    then have "int_of_digits (s @ [c]) = digit_val c" by (simp add: int_of_digits_def)
    then show ?thesis using True r digit_char_of_val [OF c]
      by (simp add: digits_of.simps [of "digit_val c"])
  next
    case False
    with snoc.prems have hd: "hd s \<noteq> CHR ''0''" and ds: "list_all is_digit s" by auto
    from int_of_digits_pos [OF False ds hd] have pos: "0 < int_of_digits s" .
    from snoc.IH [OF False ds] hd have ih: "digits_of (int_of_digits s) = s" by simp
    let ?v = "int_of_digits (s @ [c])"
    have v: "?v = 10 * int_of_digits s + digit_val c" by (simp add: int_of_digits_snoc)
    have "\<not> ?v < 10" using v pos r by linarith
    moreover have "?v div 10 = int_of_digits s" using v r by simp
    moreover have "?v mod 10 = digit_val c" using v r by simp
    ultimately show ?thesis using ih digit_char_of_val [OF c]
      by (simp add: digits_of.simps [of ?v])
  qed
qed

lemma decimal_nonneg:
  "0 \<le> i \<Longrightarrow> digits_only (decimal i) \<and> int_of_digits (decimal i) = i"
  by (simp add: decimal_def digits_only_digits_of int_of_digits_of)

lemma decimal_int_of_digits:
  "digits_only s \<Longrightarrow> canonical s \<Longrightarrow> decimal (int_of_digits s) = s"
  using digits_of_int_of_digits [of s] int_of_digits_nonneg [of s]
  by (simp add: decimal_def digits_only_def canonical_def)

subsection \<open>The cast to an integer behind the regular expression\<close>

lemma dropWhile_space_digits: "digits_only s \<Longrightarrow> dropWhile is_space s = s"
  by (cases s) (auto simp: digits_only_def digit_not_space)

lemma digits_only_rev: "digits_only s \<Longrightarrow> digits_only (rev s)"
  by (simp add: digits_only_def list_all_iff)

lemma split_sign_digits: "digits_only s \<Longrightarrow> split_sign s = (False, s)"
  by (cases s) (auto simp: digits_only_def dest: digit_not_sign)

lemma Cast_IntegerField_PostgreSQL_digits:
  assumes "digits_only s"
  shows "Cast_IntegerField PostgreSQL s =
           (if 2 ^ 31 - 1 < int_of_digits s then Inl NumericValueOutOfRange
            else Inr (int_of_digits s))"
proof -
  have "rev (dropWhile is_space (rev (dropWhile is_space s))) = s"
    using assms dropWhile_space_digits [of s] dropWhile_space_digits [OF digits_only_rev [OF assms]]
    by simp
  moreover have "0 \<le> int_of_digits s"
    using assms int_of_digits_nonneg by (simp add: digits_only_def)
  ultimately show ?thesis using assms split_sign_digits [OF assms]
    by (simp add: Cast_IntegerField.simps Let_def)
qed

lemma Cast_IntegerField_SQLite_total: "\<exists>v. Cast_IntegerField SQLite s = Inr v"
  by (simp add: Cast_IntegerField.simps Let_def split: prod.splits)

subsection \<open>The annotations\<close>

lemma trunc_mod_nonneg: "0 \<le> a \<Longrightarrow> 0 < b \<Longrightarrow> trunc_mod a b = a mod b"
  by (cases "a = 0") (simp_all add: trunc_mod_def)

lemma trunc_mod_small: "0 \<le> a \<Longrightarrow> a < b \<Longrightarrow> trunc_mod a b = a"
  by (simp add: trunc_mod_nonneg)



lemma utc_hour_annotation_PostgreSQL:
  assumes "digits_only s" and "int_of_digits s < 2 ^ 31"
  shows "utc_hour_annotation PostgreSQL off s =
           Inr (decimal (trunc_mod (int_of_digits s - off div 3600) 24))"
  using assms
  by (simp add: utc_hour_annotation_def Cast_IntegerField_PostgreSQL_digits bind_result_def)

lemma utc_minute_annotation_PostgreSQL:
  assumes "digits_only s" and "int_of_digits s < 2 ^ 31"
  shows "utc_minute_annotation PostgreSQL off s =
           Inr (decimal (int_of_digits s - trunc_mod off 3600 div 60))"
  using assms
  by (simp add: utc_minute_annotation_def Cast_IntegerField_PostgreSQL_digits bind_result_def)

lemma utc_hour_annotation_SQLite_total: "\<exists>t. utc_hour_annotation SQLite off s = Inr t"
  using Cast_IntegerField_SQLite_total [of s]
  by (auto simp: utc_hour_annotation_def bind_result_def)

lemma utc_minute_annotation_SQLite_total: "\<exists>t. utc_minute_annotation SQLite off s = Inr t"
  using Cast_IntegerField_SQLite_total [of s]
  by (auto simp: utc_minute_annotation_def bind_result_def)

lemma offset_annotation_keys:
  "offset_annotation ks cat tz =
     (if tz \<in> set ks then (case map_of cat tz of Some v \<Rightarrow> v | None \<Rightarrow> 0) else 0)"
  by (induction ks) auto

lemma offset_annotation_catalog:
  "offset_annotation (map fst cat) cat tz = (case map_of cat tz of Some v \<Rightarrow> v | None \<Rightarrow> 0)"
proof (cases "map_of cat tz")
  case None
  then show ?thesis by (simp add: offset_annotation_keys)
next
  case (Some v)
  then have "tz \<in> set (map fst cat)" by (metis map_of_eq_None_iff option.distinct(1) set_map)
  with Some show ?thesis by (simp add: offset_annotation_keys)
qed

text \<open>A row is annotated when both of its expressions evaluate, and then with their values.\<close>

lemma annotate_row_Inr_iff:
  assumes "off = (case map_of cat (timezone r) of Some v \<Rightarrow> v | None \<Rightarrow> 0)"
  shows "annotate_row b cat r = Inr r' \<longleftrightarrow>
           (\<exists>uh um. utc_hour_annotation b off (hour r) = Inr uh \<and>
                    utc_minute_annotation b off (minute r) = Inr um \<and>
                    r' = r\<lparr>offset := Some off, utc_hour := Some uh, utc_minute := Some um\<rparr>)"
  using assms
  by (auto simp: annotate_row_def Let_def bind_result_def offset_annotation_catalog
      split: sum.splits)

lemma annotate_row_unknown_timezone:
  assumes "map_of cat (timezone r) = None"
  shows "annotate_row b cat r = annotate_row b [(timezone r, 0)] r"
  using assms by (simp add: annotate_row_def offset_annotation_catalog)

lemma annotate_rows_Inr_iff:
  "annotate_rows b cat qs = Inr out \<longleftrightarrow>
     length out = length qs \<and> (\<forall>i<length qs. annotate_row b cat (qs ! i) = Inr (out ! i))"
proof (induction qs arbitrary: out)
  case Nil
  then show ?case by auto
next
  case (Cons r rs)
  show ?case
  proof (cases "annotate_row b cat r")
    case (Inl e)
    then show ?thesis by (auto simp: bind_result_def)
  next
    case r': (Inr r')
    show ?thesis
    proof (cases "annotate_rows b cat rs")
      case (Inl e)
      with Cons.IH have no: "\<And>rs'. \<not> (length rs' = length rs \<and>
          (\<forall>i<length rs. annotate_row b cat (rs ! i) = Inr (rs' ! i)))" by auto
      have "\<not> (length out = length (r # rs) \<and>
          (\<forall>i<length (r # rs). annotate_row b cat ((r # rs) ! i) = Inr (out ! i)))"
      proof
        assume a: "length out = length (r # rs) \<and>
          (\<forall>i<length (r # rs). annotate_row b cat ((r # rs) ! i) = Inr (out ! i))"
        then obtain x xs where out: "out = x # xs" by (cases out) auto
        with a have "length xs = length rs \<and>
          (\<forall>i<length rs. annotate_row b cat (rs ! i) = Inr (xs ! i))" by fastforce
        with no show False by blast
      qed
      with Inl r' show ?thesis by (simp add: bind_result_def)
    next
      case rs': (Inr rs')
      with Cons.IH have ih: "length rs' = length rs"
        "\<forall>i<length rs. annotate_row b cat (rs ! i) = Inr (rs' ! i)" by auto
      have res: "annotate_rows b cat (r # rs) = Inr (r' # rs')"
        by (simp add: r' rs' bind_result_def)
      show ?thesis
      proof
        assume "annotate_rows b cat (r # rs) = Inr out"
        with res have "out = r' # rs'" by simp
        with r' ih show "length out = length (r # rs) \<and>
          (\<forall>i<length (r # rs). annotate_row b cat ((r # rs) ! i) = Inr (out ! i))"
          by (auto simp: nth_Cons split: nat.splits)
      next
        assume a: "length out = length (r # rs) \<and>
          (\<forall>i<length (r # rs). annotate_row b cat ((r # rs) ! i) = Inr (out ! i))"
        then obtain x xs where out: "out = x # xs" by (cases out) auto
        with a have x: "annotate_row b cat r = Inr x" by fastforce
        from a out have "length xs = length rs \<and>
          (\<forall>i<length rs. annotate_row b cat (rs ! i) = Inr (xs ! i))" by fastforce
        with Cons.IH have "annotate_rows b cat rs = Inr xs" by blast
        with x r' rs' out res show "annotate_rows b cat (r # rs) = Inr out" by simp
      qed
    qed
  qed
qed

lemma annotate_rows_total:
  assumes "\<forall>r\<in>set qs. \<exists>r'. annotate_row b cat r = Inr r'"
  shows "\<exists>out. annotate_rows b cat qs = Inr out \<and> length out = length qs"
  using assms
proof (induction qs)
  case Nil
  then show ?case by simp
next
  case (Cons r rs)
  then obtain r' rs' where "annotate_row b cat r = Inr r'"
    "annotate_rows b cat rs = Inr rs'" "length rs' = length rs" by auto
  then show ?case by (simp add: bind_result_def)
qed

lemma annotate_row_SQLite_total: "\<exists>r'. annotate_row SQLite cat r = Inr r'"
  using utc_hour_annotation_SQLite_total utc_minute_annotation_SQLite_total
  by (metis annotate_row_Inr_iff)

lemma annotate_with_catalog_nth:
  assumes "cat \<noteq> []" and "annotate_with_catalog b cat qs = Inr out" and "i < length qs"
  shows "length out = length qs" and "annotate_row b cat (qs ! i) = Inr (out ! i)"
  using assms annotate_rows_Inr_iff [of b cat qs out]
  by (simp_all add: annotate_with_catalog_def)

lemma annotate_with_catalog_single:
  "cat \<noteq> [] \<Longrightarrow> annotate_with_catalog b cat [r] = Inr [r'] \<longleftrightarrow> annotate_row b cat r = Inr r'"
  by (auto simp: annotate_with_catalog_def bind_result_def split: sum.splits)

lemma get_timezone_offsets_loop_map_of:
  "map_of (get_timezone_offsets_loop resolve names acc) tz =
     (if tz \<in> set names
      then (case resolve tz of Inl e \<Rightarrow> map_of acc tz | Inr v \<Rightarrow> Some v)
      else map_of acc tz)"
proof (induction names arbitrary: acc)
  case Nil
  then show ?case by simp
next
  case (Cons n ns)
  show ?case
  proof (cases "resolve n")
    case (Inl e)
    with Cons show ?thesis by auto
  next
    case (Inr v)
    with Cons show ?thesis by (auto simp: update_conv' split: sum.splits)
  qed
qed

lemma get_timezone_offsets_loop_distinct:
  "distinct (map fst acc) \<Longrightarrow> distinct (map fst (get_timezone_offsets_loop resolve names acc))"
  by (induction names arbitrary: acc) (auto simp: distinct_update split: sum.splits)

section \<open>The claims\<close>

subsection \<open>C1: the minute of a fixed minute field\<close>

text \<open>
  C1 says that a fixed minute \<open>m\<close> under offset \<open>o\<close> becomes
  \<open>((m - floor((o mod 3600) / 60)) mod 60 + 60) mod 60\<close>, and that offset +19800 with
  minute "0" gives "30". The code subtracts and casts, with no Mod 60 around the
  difference (the hour expression beside it has its Mod 24): for the catalog
  Asia/Kolkata = 19800 and the schedule (Asia/Kolkata, "9", "0") the annotation
  \<^verbatim>\<open>utc_minute\<close> is "-30" on PostgreSQL and "-30.0" on SQLite.
\<close>

theorem kolkata_minute_evaluation:
  "annotate_with_catalog PostgreSQL [(''Asia/Kolkata'', 19800)]
     [\<lparr>timezone = ''Asia/Kolkata'', hour = ''9'', minute = ''0'',
       offset = None, utc_hour = None, utc_minute = None\<rparr>] =
   Inr [\<lparr>timezone = ''Asia/Kolkata'', hour = ''9'', minute = ''0'',
         offset = Some 19800, utc_hour = Some ''4'', utc_minute = Some ''-30''\<rparr>] \<and>
   annotate_with_catalog SQLite [(''Asia/Kolkata'', 19800)]
     [\<lparr>timezone = ''Asia/Kolkata'', hour = ''9'', minute = ''0'',
       offset = None, utc_hour = None, utc_minute = None\<rparr>] =
   Inr [\<lparr>timezone = ''Asia/Kolkata'', hour = ''9'', minute = ''0'',
         offset = Some 19800, utc_hour = Some ''4.0'', utc_minute = Some ''-30.0''\<rparr>]"
  by code_simp

subsection \<open>C2: the hour of a fixed hour field\<close>

text \<open>
  C2 says that a fixed hour \<open>h\<close> in 0..23 under a whole-hour offset becomes
  \<open>((h - floor(o / 3600)) mod 24 + 24) mod 24\<close>, always in 0..23. The code applies Mod
  once, and the database's remainder keeps the sign of the dividend: for the catalog
  Africa/Lagos = 3600 and the schedule (Africa/Lagos, "0", "0") the annotation
  \<^verbatim>\<open>utc_hour\<close> is "-1" on PostgreSQL and "-1.0" on SQLite, not "23".
\<close>

theorem lagos_hour_evaluation:
  "annotate_with_catalog PostgreSQL [(''Africa/Lagos'', 3600)]
     [\<lparr>timezone = ''Africa/Lagos'', hour = ''0'', minute = ''0'',
       offset = None, utc_hour = None, utc_minute = None\<rparr>] =
   Inr [\<lparr>timezone = ''Africa/Lagos'', hour = ''0'', minute = ''0'',
         offset = Some 3600, utc_hour = Some ''-1'', utc_minute = Some ''0''\<rparr>] \<and>
   annotate_with_catalog SQLite [(''Africa/Lagos'', 3600)]
     [\<lparr>timezone = ''Africa/Lagos'', hour = ''0'', minute = ''0'',
       offset = None, utc_hour = None, utc_minute = None\<rparr>] =
   Inr [\<lparr>timezone = ''Africa/Lagos'', hour = ''0'', minute = ''0'',
         offset = Some 3600, utc_hour = Some ''-1.0'', utc_minute = Some ''0.0''\<rparr>]"
  by code_simp

subsection \<open>C3: complex fields are echoed\<close>




subsection \<open>C4: an empty catalog\<close>

text \<open>
  C4: when the dict of offsets is empty, the queryset is returned as it is, on every
  database: no row is annotated, no offset is made up and no field is transformed.
\<close>

theorem empty_catalog_identity:
  "annotate_with_catalog b [] qs = Inr qs \<and>
   (get_timezone_offsets avail resolve = [] \<longrightarrow>
      annotate_with_utc_hour_minute b avail resolve qs = Inr qs)"
  by (simp add: annotate_with_catalog_def annotate_with_utc_hour_minute_def)

theorem empty_catalog_identity_witness:
  "get_timezone_offsets [''Mars/Olympus''] (\<lambda>tz. Inl ZoneInfoError) = [] \<and>
   annotate_with_utc_hour_minute PostgreSQL [''Mars/Olympus''] (\<lambda>tz. Inl ZoneInfoError)
     [\<lparr>timezone = ''UTC'', hour = ''9'', minute = ''30'',
        offset = None, utc_hour = None, utc_minute = None\<rparr>] =
   Inr [\<lparr>timezone = ''UTC'', hour = ''9'', minute = ''30'',
        offset = None, utc_hour = None, utc_minute = None\<rparr>]"
proof -
  have h: "get_timezone_offsets [''Mars/Olympus''] (\<lambda>tz. Inl ZoneInfoError) = []"
    by (simp add: get_timezone_offsets_def)
  from empty_catalog_identity [of PostgreSQL "[\<lparr>timezone = ''UTC'', hour = ''9'', minute = ''30'',
        offset = None, utc_hour = None, utc_minute = None\<rparr>]" "[''Mars/Olympus'']"
        "\<lambda>tz. Inl ZoneInfoError"] h
  show ?thesis by blast
qed

subsection \<open>C5: a timezone that the catalog does not know\<close>

text \<open>
  C5: with a catalog that is not empty, a row whose timezone is not a key of the catalog
  behaves, on every database, exactly as the same row under a catalog that gives its
  timezone the offset 0: the two queries on that row have the same result, error
  included; when the query on the batch returns, the row has the offset 0 and the
  annotations of the zero-offset query. The query on the batch returns when the query
  on each of its rows does, and always on SQLite.
\<close>

theorem unknown_timezone_is_zero_offset:
  assumes "cat \<noteq> []" and "i < length qs" and "map_of cat (timezone (qs ! i)) = None"
  shows "annotate_with_catalog b cat [qs ! i] =
           annotate_with_catalog b [(timezone (qs ! i), 0)] [qs ! i] \<and>
         (\<forall>out. annotate_with_catalog b cat qs = Inr out \<longrightarrow>
            length out = length qs \<and> offset (out ! i) = Some 0 \<and>
            annotate_with_catalog b [(timezone (qs ! i), 0)] [qs ! i] = Inr [out ! i]) \<and>
         ((\<forall>r\<in>set qs. \<exists>r'. annotate_with_catalog b cat [r] = Inr [r']) \<longrightarrow>
            (\<exists>out. annotate_with_catalog b cat qs = Inr out)) \<and>
         (b = SQLite \<longrightarrow> (\<exists>out. annotate_with_catalog b cat qs = Inr out))"
proof -
  let ?r = "qs ! i"
  note eq = annotate_row_unknown_timezone [OF assms(3), of b]
  have one: "annotate_with_catalog b cat [?r] = annotate_with_catalog b [(timezone ?r, 0)] [?r]"
    using assms(1) eq by (simp add: annotate_with_catalog_def)
  have two: "length out = length qs \<and> offset (out ! i) = Some 0 \<and>
      annotate_with_catalog b [(timezone ?r, 0)] [?r] = Inr [out ! i]"
    if o: "annotate_with_catalog b cat qs = Inr out" for out
  proof -
    note n = annotate_with_catalog_nth [OF assms(1) o assms(2)]
    have z: "(0::int) = (case map_of cat (timezone ?r) of Some v \<Rightarrow> v | None \<Rightarrow> 0)"
      by (simp add: assms(3))
    from n(2) annotate_row_Inr_iff [OF z, of b "out ! i"]
    have "offset (out ! i) = Some 0" by auto
    moreover from n(2) eq have "annotate_row b [(timezone ?r, 0)] ?r = Inr (out ! i)" by simp
    then have "annotate_with_catalog b [(timezone ?r, 0)] [?r] = Inr [out ! i]"
      by (simp add: annotate_with_catalog_single)
    ultimately show ?thesis using n(1) by simp
  qed
  have three: "\<exists>out. annotate_with_catalog b cat qs = Inr out"
    if a: "\<forall>r\<in>set qs. \<exists>r'. annotate_with_catalog b cat [r] = Inr [r']"
  proof -
    from a assms(1) have "\<forall>r\<in>set qs. \<exists>r'. annotate_row b cat r = Inr r'"
      by (simp add: annotate_with_catalog_single)
    from annotate_rows_total [OF this] show ?thesis
      using assms(1) by (auto simp: annotate_with_catalog_def)
  qed
  have four: "\<exists>out. annotate_with_catalog b cat qs = Inr out" if "b = SQLite"
    using that annotate_rows_total [of qs SQLite cat] annotate_row_SQLite_total assms(1)
    by (auto simp: annotate_with_catalog_def)
  show ?thesis using one two three four by blast
qed

theorem unknown_timezone_is_zero_offset_witness:
  "[(''Asia/Kolkata'', 19800::int)] \<noteq> [] \<and>
   (0::nat) < length [\<lparr>timezone = ''Nowhere/Land'', hour = ''9'', minute = ''30'',
        offset = None, utc_hour = None, utc_minute = None\<rparr>] \<and>
   map_of [(''Asia/Kolkata'', 19800::int)] ''Nowhere/Land'' = None \<and>
   (\<exists>out. annotate_with_catalog SQLite [(''Asia/Kolkata'', 19800)]
        [\<lparr>timezone = ''Nowhere/Land'', hour = ''9'', minute = ''30'',
        offset = None, utc_hour = None, utc_minute = None\<rparr>] = Inr out \<and>
      offset (out ! 0) = Some 0 \<and>
      annotate_with_catalog SQLite [(''Nowhere/Land'', 0)]
        [\<lparr>timezone = ''Nowhere/Land'', hour = ''9'', minute = ''30'',
        offset = None, utc_hour = None, utc_minute = None\<rparr>] = Inr [out ! 0])"
proof -
  let ?cat = "[(''Asia/Kolkata'', 19800::int)]"
  let ?qs = "[\<lparr>timezone = ''Nowhere/Land'', hour = ''9'', minute = ''30'',
        offset = None, utc_hour = None, utc_minute = None\<rparr>]"
  have h1: "?cat \<noteq> []" by simp
  have h2: "(0::nat) < length ?qs" by simp
  have h3: "map_of ?cat (timezone (?qs ! 0)) = None" by simp
  note t = unknown_timezone_is_zero_offset [OF h1 h2 h3, of SQLite]
  from t obtain out where o: "annotate_with_catalog SQLite ?cat ?qs = Inr out" by blast
  from t o have "offset (out ! 0) = Some 0"
    and "annotate_with_catalog SQLite [(timezone (?qs ! 0), 0)] [?qs ! 0] = Inr [out ! 0]"
    by blast+
  then have "offset (out ! 0) = Some 0 \<and>
      annotate_with_catalog SQLite [(''Nowhere/Land'', 0)] ?qs = Inr [out ! 0]" by simp
  moreover have "map_of ?cat ''Nowhere/Land'' = None" by simp
  ultimately show ?thesis using o h1 h2 by blast
qed

subsection \<open>C6: the catalog that get_timezone_offsets builds\<close>

text \<open>
  C6: \<^verbatim>\<open>get_timezone_offsets\<close> returns a dict for every set of identifiers and every
  behaviour of the resolution (the exception of one identifier is caught and the loop
  goes on): an identifier is a key exactly when it is available and resolves, its value
  is then the offset it resolved to, and no key occurs twice.
\<close>

theorem get_timezone_offsets_content:
  "map_of (get_timezone_offsets avail resolve) tz =
     (if tz \<in> set avail then (case resolve tz of Inl e \<Rightarrow> None | Inr v \<Rightarrow> Some v) else None)
   \<and> distinct (map fst (get_timezone_offsets avail resolve))"
  by (simp add: get_timezone_offsets_def get_timezone_offsets_loop_map_of
      get_timezone_offsets_loop_distinct split: sum.splits)

subsection \<open>C7: the annotation never fails\<close>

text \<open>
  C7 says that no input makes the annotation raise. The regular expression keeps
  strings that are not numbers away from the cast to an integer, but not digit strings
  beyond the range of the integer type: on PostgreSQL the hour "2147483648" makes the
  cast raise, and with it the query on the whole batch, here next to a row that is in
  order.
\<close>

theorem integer_out_of_range_evaluation:
  "digits_only ''2147483648'' \<and>
   annotate_with_catalog PostgreSQL [(''UTC'', 0)]
     [\<lparr>timezone = ''UTC'', hour = ''2147483648'', minute = ''0'',
       offset = None, utc_hour = None, utc_minute = None\<rparr>] = Inl NumericValueOutOfRange \<and>
   annotate_with_utc_hour_minute PostgreSQL [''UTC''] (\<lambda>tz. Inr 0)
     [\<lparr>timezone = ''UTC'', hour = ''9'', minute = ''30'',
       offset = None, utc_hour = None, utc_minute = None\<rparr>,
      \<lparr>timezone = ''UTC'', hour = ''2147483648'', minute = ''0'',
       offset = None, utc_hour = None, utc_minute = None\<rparr>] = Inl NumericValueOutOfRange"
  by code_simp

subsection \<open>C8: normalizing with an offset and then with its opposite\<close>

text \<open>
  C8 as stated (every offset) fails where the offset is not a whole number of hours,
  since \<open>floor(o / 3600) + floor(- o / 3600) = - 1\<close> there: on PostgreSQL the hour "9"
  under 19800 becomes "4", and "4" under -19800 becomes "10".
\<close>

theorem hour_round_trip_counterexample:
  "digits_only ''9'' \<and> utc_hour_annotation PostgreSQL 19800 ''9'' = Inr ''4'' \<and>
   utc_hour_annotation PostgreSQL (- 19800) ''4'' = Inr ''10'' \<and>
   bind_result (utc_hour_annotation PostgreSQL 19800 ''9'')
     (utc_hour_annotation PostgreSQL (- 19800)) \<noteq> Inr ''9''"
  by code_simp

text \<open>
  C8, amended: on PostgreSQL, for a fixed hour field of value \<open>h\<close> below 24 and a
  whole-hour offset \<open>3600 * k\<close>, when the dividend of Mod is not negative in either pass
  (\<open>0 \<le> h - k\<close> in the first, \<open>0 \<le> (h - k) mod 24 + k\<close> in the second), normalizing
  with the offset and then with its opposite returns the decimal notation of \<open>h\<close>,
  which is the field itself when it has no leading zero.
\<close>

theorem hour_round_trip_whole_hours:
  assumes "digits_only s" and "int_of_digits s < 24"
    and "0 \<le> int_of_digits s - k" and "0 \<le> (int_of_digits s - k) mod 24 + k"
  shows "bind_result (utc_hour_annotation PostgreSQL (3600 * k) s)
           (utc_hour_annotation PostgreSQL (- (3600 * k))) = Inr (decimal (int_of_digits s)) \<and>
         (canonical s \<longrightarrow>
            bind_result (utc_hour_annotation PostgreSQL (3600 * k) s)
              (utc_hour_annotation PostgreSQL (- (3600 * k))) = Inr s)"
proof -
  let ?h = "int_of_digits s"
  have h0: "0 \<le> ?h" using assms(1) int_of_digits_nonneg by (simp add: digits_only_def)
  have small: "?h - k < 24"
  proof (rule ccontr)
    assume "\<not> ?h - k < 24"
    then have big: "0 \<le> ?h - k - 24" by simp
    have "(?h - k) mod 24 = (?h - k - 24) mod 24" by simp
    also have "\<dots> \<le> ?h - k - 24" by (rule zmod_le_nonneg_dividend [OF big])
    finally show False using assms(2,4) by linarith
  qed
  have r1: "?h < 2 ^ 31" using assms(2) by simp
  have first: "utc_hour_annotation PostgreSQL (3600 * k) s = Inr (decimal (?h - k))"
    using assms(3) small
    by (simp add: utc_hour_annotation_PostgreSQL [OF assms(1) r1] trunc_mod_small)
  note c = decimal_nonneg [OF assms(3)]
  have r2: "int_of_digits (decimal (?h - k)) < 2 ^ 31" using c small by simp
  have "utc_hour_annotation PostgreSQL (- (3600 * k)) (decimal (?h - k)) =
          Inr (decimal (trunc_mod (?h - k - (- (3600 * k)) div 3600) 24))"
    using c utc_hour_annotation_PostgreSQL [OF conjunct1 [OF c] r2] by simp
  moreover have "(- (3600 * k)) div 3600 = - k" by simp
  ultimately have second:
    "utc_hour_annotation PostgreSQL (- (3600 * k)) (decimal (?h - k)) = Inr (decimal ?h)"
    using h0 assms(2) by (simp add: trunc_mod_small)
  have rt: "bind_result (utc_hour_annotation PostgreSQL (3600 * k) s)
          (utc_hour_annotation PostgreSQL (- (3600 * k))) = Inr (decimal ?h)"
    by (simp add: first second bind_result_def)
  then show ?thesis using decimal_int_of_digits [OF assms(1)] by simp
qed

theorem hour_round_trip_whole_hours_witness:
  "digits_only ''9'' \<and> int_of_digits ''9'' < 24 \<and> 0 \<le> int_of_digits ''9'' - (- 5) \<and>
   0 \<le> (int_of_digits ''9'' - (- 5)) mod 24 + (- 5) \<and> canonical ''9'' \<and>
   bind_result (utc_hour_annotation PostgreSQL (3600 * (- 5)) ''9'')
     (utc_hour_annotation PostgreSQL (- (3600 * (- 5)))) = Inr ''9''"
proof -
  have h1: "digits_only ''9''" by (simp add: digits_only_def is_digit_def)
  have v: "int_of_digits ''9'' = 9" by (simp add: int_of_digits_def digit_val_def)
  have h2: "int_of_digits ''9'' < 24" and h3: "0 \<le> int_of_digits ''9'' - (- 5)"
    and h4: "0 \<le> (int_of_digits ''9'' - (- 5)) mod 24 + (- 5)"
    by (simp_all add: v)
  have h5: "canonical ''9''" by (simp add: canonical_def)
  from hour_round_trip_whole_hours [OF h1 h2 h3 h4] h5
  have "bind_result (utc_hour_annotation PostgreSQL (3600 * (- 5)) ''9'')
          (utc_hour_annotation PostgreSQL (- (3600 * (- 5)))) = Inr ''9''" by blast
  with h1 h2 h3 h4 h5 show ?thesis by blast
qed

subsection \<open>C9: offset zero\<close>

text \<open>
  C9 as stated (every fixed field comes back as the same string) fails for a field with
  a leading zero and for an hour of 24 or more: on PostgreSQL, under offset 0, "09"
  becomes "9" and the hour "24" becomes "0".
\<close>

theorem zero_offset_counterexample:
  "digits_only ''09'' \<and> utc_hour_annotation PostgreSQL 0 ''09'' = Inr ''9'' \<and>
   utc_hour_annotation PostgreSQL 0 ''09'' \<noteq> Inr ''09'' \<and>
   utc_minute_annotation PostgreSQL 0 ''09'' \<noteq> Inr ''09'' \<and>
   digits_only ''24'' \<and> utc_hour_annotation PostgreSQL 0 ''24'' = Inr ''0''"
  by code_simp

text \<open>
  C9, amended: on PostgreSQL, under offset 0, a fixed minute field written without a
  leading zero and of value below \<open>2 ^ 31\<close> is returned unchanged, and so is a fixed
  hour field written without a leading zero whose value is below 24.
\<close>

theorem zero_offset_canonical_unchanged:
  assumes "digits_only s" and "canonical s"
  shows "(int_of_digits s < 2 ^ 31 \<longrightarrow> utc_minute_annotation PostgreSQL 0 s = Inr s) \<and>
         (int_of_digits s < 24 \<longrightarrow> utc_hour_annotation PostgreSQL 0 s = Inr s)"
proof -
  have h0: "0 \<le> int_of_digits s"
    using assms(1) int_of_digits_nonneg by (simp add: digits_only_def)
  have z: "trunc_mod 0 3600 = 0" by (simp add: trunc_mod_def)
  have "utc_minute_annotation PostgreSQL 0 s = Inr s" if r: "int_of_digits s < 2 ^ 31"
    using utc_minute_annotation_PostgreSQL [OF assms(1) r, of 0]
      decimal_int_of_digits [OF assms] z by simp
  moreover have "utc_hour_annotation PostgreSQL 0 s = Inr s" if r: "int_of_digits s < 24"
  proof -
    from r have r': "int_of_digits s < 2 ^ 31" by simp
    show ?thesis
      using utc_hour_annotation_PostgreSQL [OF assms(1) r', of 0]
        decimal_int_of_digits [OF assms] h0 r by (simp add: trunc_mod_small)
  qed
  ultimately show ?thesis by simp
qed

theorem zero_offset_canonical_unchanged_witness:
  "digits_only ''14'' \<and> canonical ''14'' \<and> int_of_digits ''14'' < 2 ^ 31 \<and>
   int_of_digits ''14'' < 24 \<and>
   utc_minute_annotation PostgreSQL 0 ''14'' = Inr ''14'' \<and>
   utc_hour_annotation PostgreSQL 0 ''14'' = Inr ''14''"
proof -
  have h1: "digits_only ''14''" by (simp add: digits_only_def is_digit_def)
  have h2: "canonical ''14''" by (simp add: canonical_def)
  have v: "int_of_digits ''14'' = 14" by (simp add: int_of_digits_def digit_val_def)
  have h3: "int_of_digits ''14'' < 2 ^ 31" and h4: "int_of_digits ''14'' < 24"
    by (simp_all add: v)
  from zero_offset_canonical_unchanged [OF h1 h2] h1 h2 h3 h4 show ?thesis by blast
qed

subsection \<open>C10: every digits-only field takes the arithmetic branch\<close>

text \<open>
  C10 says that a field made of digits only is cast to an integer and that the output
  is the decimal notation of the computed integer: the hour "99" becomes "3" and the
  minute "09" becomes "9" under offset 0. That is what PostgreSQL returns. On SQLite
  the computed number is a REAL when it is cast to text, and the output is "3.0" and
  "9.0": the source wraps the difference in
  \<^verbatim>\<open>ExpressionWrapper(..., output_field=IntegerField())\<close>, which states the type
  for Django and casts nothing in the query.
\<close>

theorem sqlite_fixed_fields_evaluation:
  "digits_only ''99'' \<and> digits_only ''09'' \<and>
   annotate_with_catalog SQLite [(''UTC'', 0)]
     [\<lparr>timezone = ''UTC'', hour = ''99'', minute = ''09'',
       offset = None, utc_hour = None, utc_minute = None\<rparr>] =
   Inr [\<lparr>timezone = ''UTC'', hour = ''99'', minute = ''09'',
         offset = Some 0, utc_hour = Some ''3.0'', utc_minute = Some ''9.0''\<rparr>] \<and>
   annotate_with_catalog PostgreSQL [(''UTC'', 0)]
     [\<lparr>timezone = ''UTC'', hour = ''99'', minute = ''09'',
       offset = None, utc_hour = None, utc_minute = None\<rparr>] =
   Inr [\<lparr>timezone = ''UTC'', hour = ''99'', minute = ''09'',
         offset = Some 0, utc_hour = Some ''3'', utc_minute = Some ''9''\<rparr>]"
  by code_simp

end
